theory Spec2Isabelle
  imports Complex_Main
begin

section \<open>Data model\<close>

text \<open>
  The records of \<^verbatim>\<open>src/types\<close> as the code and its tests use them. A timestamp is
  the ISO string the server stores; the optional colour of an option plays no role in
  the functions modelled here and is left out.
\<close>

record Vote =
  vote_id :: string
  questionId :: string
  optionId :: string
  deviceId :: string
  timestamp :: string

record Option =
  opt_id :: string
  opt_label :: string

record OptionStat =
  stat_optionId :: string
  stat_label :: string
  stat_count :: nat
  percentage :: real

record VoteStats =
  totalVotes :: nat
  options :: "OptionStat list"

section \<open>Stats calculator (\<^verbatim>\<open>src/utils/stats.ts\<close>)\<close>

text \<open>
  \<^verbatim>\<open>countMap\<close> is a JavaScript \<^verbatim>\<open>Map<string, number>\<close>. A \<^verbatim>\<open>Map\<close> iterates in
  insertion order and \<^verbatim>\<open>set\<close> on a key already present keeps the key's position, so
  the model is an association list: \<open>countMap_set\<close> overwrites in place or appends.
\<close>

type_synonym countMap = "(string \<times> nat) list"

fun countMap_get :: "countMap \<Rightarrow> string \<Rightarrow> nat option" where
  "countMap_get [] k = None"
| "countMap_get ((k', c) # m) k = (if k' = k then Some c else countMap_get m k)"

fun countMap_set :: "countMap \<Rightarrow> string \<Rightarrow> nat \<Rightarrow> countMap" where
  "countMap_set [] k v = [(k, v)]"
| "countMap_set ((k', c) # m) k v =
     (if k' = k then (k, v) # m else (k', c) # countMap_set m k v)"

text \<open>\<^verbatim>\<open>countMap.get(key) || 0\<close>: a missing key (and a stored 0) reads as 0.\<close>

definition get_or_0 :: "countMap \<Rightarrow> string \<Rightarrow> nat" where
  "get_or_0 m k = (case countMap_get m k of None \<Rightarrow> 0 | Some c \<Rightarrow> (if c = 0 then 0 else c))"

text \<open>The loop \<^verbatim>\<open>for (const vote of votes)\<close>, threading the map.\<close>

fun count_votes :: "countMap \<Rightarrow> Vote list \<Rightarrow> countMap" where
  "count_votes m [] = m"
| "count_votes m (vote # votes) =
     (let currentCount = get_or_0 m (optionId vote)
      in count_votes (countMap_set m (optionId vote) (currentCount + 1)) votes)"

text \<open>
  \<^verbatim>\<open>totalVotes > 0 ? (count / totalVotes) * 100 : 0\<close>. JavaScript numbers are IEEE
  doubles: the quotient is rounded, and so is the product. The rounding is the
  parameter \<open>rnd\<close> of the model, so that every statement below holds for the rounding
  of the machine, whatever it is, and for exact arithmetic (\<open>rnd\<close> the identity).
  The division is reached with a positive divisor only.
\<close>

definition js_div :: "(real \<Rightarrow> real) \<Rightarrow> real \<Rightarrow> real \<Rightarrow> real" where
  "js_div rnd a b = rnd (a / b)"

definition js_mul :: "(real \<Rightarrow> real) \<Rightarrow> real \<Rightarrow> real \<Rightarrow> real" where
  "js_mul rnd a b = rnd (a * b)"

definition percentage_of :: "(real \<Rightarrow> real) \<Rightarrow> nat \<Rightarrow> nat \<Rightarrow> real" where
  "percentage_of rnd count total_votes =
     (if total_votes > 0 then js_mul rnd (js_div rnd (real count) (real total_votes)) 100
      else 0)"

definition calculateStats :: "(real \<Rightarrow> real) \<Rightarrow> Vote list \<Rightarrow> Option list \<Rightarrow> VoteStats" where
  "calculateStats rnd votes opts =
     (let total_votes = length votes;
          countMap = count_votes [] votes;
          optionStats =
            (if length opts > 0 then
               map (\<lambda>option.
                      let count = get_or_0 countMap (opt_id option)
                      in \<lparr>stat_optionId = opt_id option, stat_label = opt_label option,
                          stat_count = count, percentage = percentage_of rnd count total_votes\<rparr>)
                   opts
             else
               map (\<lambda>(oid, count).
                      \<lparr>stat_optionId = oid, stat_label = oid,
                       stat_count = count, percentage = percentage_of rnd count total_votes\<rparr>)
                   countMap)
      in \<lparr>totalVotes = total_votes, options = optionStats\<rparr>)"

section \<open>Vote-status guard (\<^verbatim>\<open>src/utils/voteStatus.ts\<close>)\<close>

text \<open>
  The browser's \<^verbatim>\<open>localStorage\<close> is the state the three functions read and write.
  Its calls can throw, and the code catches that: reaching the storage at all may be
  refused (\<open>accessible\<close> false, every call throws), and \<^verbatim>\<open>setItem\<close> throws when
  the quota is used up (\<open>full\<close>).
\<close>

datatype storage_error = SecurityError | QuotaExceededError

record localStorage =
  items :: "string \<rightharpoonup> string"
  accessible :: bool
  full :: bool

definition getItem :: "localStorage \<Rightarrow> string \<Rightarrow> storage_error + string option" where
  "getItem ls key = (if accessible ls then Inr (items ls key) else Inl SecurityError)"

definition setItem :: "localStorage \<Rightarrow> string \<Rightarrow> string \<Rightarrow> storage_error + localStorage" where
  "setItem ls key v =
     (if \<not> accessible ls then Inl SecurityError
      else if full ls then Inl QuotaExceededError
      else Inr (ls\<lparr>items := (items ls)(key \<mapsto> v)\<rparr>))"

definition removeItem :: "localStorage \<Rightarrow> string \<Rightarrow> storage_error + localStorage" where
  "removeItem ls key =
     (if accessible ls then Inr (ls\<lparr>items := (items ls)(key := None)\<rparr>)
      else Inl SecurityError)"

definition VOTE_STATUS_PREFIX :: string where
  "VOTE_STATUS_PREFIX = ''vote_status_''"

definition getStorageKey :: "string \<Rightarrow> string" where
  "getStorageKey qid = VOTE_STATUS_PREFIX @ qid"

text \<open>\<^verbatim>\<open>!questionId\<close> on a string is true exactly for the empty string.\<close>

definition checkVoteStatus :: "localStorage \<Rightarrow> string \<Rightarrow> bool" where
  "checkVoteStatus ls qid =
     (if qid = [] then False
      else case getItem ls (getStorageKey qid) of
             Inl err \<Rightarrow> False
           | Inr v \<Rightarrow> v = Some ''true'')"

text \<open>\<open>markAsVoted\<close> returns its result and the storage it leaves.\<close>

definition markAsVoted :: "localStorage \<Rightarrow> string \<Rightarrow> bool \<times> localStorage" where
  "markAsVoted ls qid =
     (if qid = [] then (False, ls)
      else case setItem ls (getStorageKey qid) ''true'' of
             Inl err \<Rightarrow> (False, ls)
           | Inr ls' \<Rightarrow> (True, ls'))"

definition clearVoteStatus :: "localStorage \<Rightarrow> string \<Rightarrow> localStorage" where
  "clearVoteStatus ls qid =
     (if qid = [] then ls
      else case removeItem ls (getStorageKey qid) of
             Inl err \<Rightarrow> ls
           | Inr ls' \<Rightarrow> ls')"

text \<open>Calling \<open>markAsVoted\<close> \<open>n\<close> times in a row, keeping the last result.\<close>

fun mark_times :: "nat \<Rightarrow> string \<Rightarrow> bool \<times> localStorage \<Rightarrow> bool \<times> localStorage" where
  "mark_times 0 qid r = r"
| "mark_times (Suc n) qid r = mark_times n qid (markAsVoted (snd r) qid)"

section \<open>Backend (\<^verbatim>\<open>server/server.cjs\<close>)\<close>

text \<open>
  The two JSON files are the state: \<^verbatim>\<open>votes.json\<close> holds the list of votes,
  \<^verbatim>\<open>events.json\<close> the objects \<^verbatim>\<open>events\<close> and \<^verbatim>\<open>questions\<close>, keyed by identifier.
  A handler reads the state, answers, and writes the state back where the code calls
  \<^verbatim>\<open>writeVotesData\<close> or \<^verbatim>\<open>writeEventsData\<close>. A file that cannot be read is the empty
  state. The body of \<^verbatim>\<open>POST /api/votes\<close> is parsed JSON, and the handler stores what
  it finds there: its fields are JSON values of any kind, or absent. The votes that
  the other handlers and the client read are the records of strings of the data model.
\<close>

record Event =
  event_id :: string
  event_name :: string
  currentQuestionId :: "string option"
  clearedQuestionId :: "string option"

record Question =
  question_id :: string
  question_eventId :: string
  question_title :: string
  question_options :: "Option list"
  question_order :: int

record EventsData =
  events :: "string \<rightharpoonup> Event"
  questions :: "string \<rightharpoonup> Question"

text \<open>
  \<^verbatim>\<open>data.events[eventId]\<close> is a property read on a plain object made by
  \<^verbatim>\<open>JSON.parse\<close>: a key that is not the object's own is looked up in
  \<^verbatim>\<open>Object.prototype\<close>, whose properties are all truthy (functions, and the prototype
  itself under \<^verbatim>\<open>__proto__\<close>). A read is therefore the stored value, an inherited
  value that is no part of the data, or \<^verbatim>\<open>undefined\<close>.
\<close>

definition Object_prototype_keys :: "string list" where
  "Object_prototype_keys =
     [''constructor'', ''__proto__'', ''hasOwnProperty'', ''isPrototypeOf'',
      ''propertyIsEnumerable'', ''toLocaleString'', ''toString'', ''valueOf'',
      ''__defineGetter__'', ''__defineSetter__'', ''__lookupGetter__'',
      ''__lookupSetter__'']"

datatype 'a property = Own 'a | Inherited | Undefined

definition js_get :: "(string \<rightharpoonup> 'a) \<Rightarrow> string \<Rightarrow> 'a property" where
  "js_get obj key =
     (case obj key of
        Some v \<Rightarrow> Own v
      | None \<Rightarrow> if key \<in> set Object_prototype_keys then Inherited else Undefined)"

text \<open>
  JSON values as \<^verbatim>\<open>JSON.parse\<close> returns them. A number is a double; a literal beyond
  the range of doubles parses to an infinity, and \<^verbatim>\<open>NaN\<close> has no literal.
\<close>

datatype js_number = Finite real | PosInfinity | NegInfinity

datatype json =
    JNull
  | JBool bool
  | JNumber js_number
  | JString string
  | JArray "json list"
  | JObject "(string \<times> json) list"

text \<open>\<^verbatim>\<open>!x\<close> is true exactly when \<open>x\<close> is not truthy; an absent field is
  \<^verbatim>\<open>undefined\<close>.\<close>

fun truthy :: "json \<Rightarrow> bool" where
  "truthy JNull = False"
| "truthy (JBool b) = b"
| "truthy (JNumber n) = (n \<noteq> Finite 0)"
| "truthy (JString s) = (s \<noteq> [])"
| "truthy (JArray xs) = True"
| "truthy (JObject kvs) = True"

definition missing :: "json option \<Rightarrow> bool" where
  "missing x = (case x of None \<Rightarrow> True | Some v \<Rightarrow> \<not> truthy v)"

text \<open>
  \<^verbatim>\<open>a === b\<close> for a value of the store and a value of the body, parsed from two texts:
  primitives are compared by value, and an array or an object is never the same object
  as another one.
\<close>

fun strict_equal :: "json \<Rightarrow> json \<Rightarrow> bool" where
  "strict_equal JNull JNull = True"
| "strict_equal (JBool a) (JBool b) = (a = b)"
| "strict_equal (JNumber a) (JNumber b) = (a = b)"
| "strict_equal (JString a) (JString b) = (a = b)"
| "strict_equal a b = False"

text \<open>
  What \<^verbatim>\<open>JSON.parse\<close> reads back after \<^verbatim>\<open>JSON.stringify\<close> has written a value: an
  infinity is written as \<^verbatim>\<open>null\<close>, everything else as it is.
\<close>

fun as_written :: "json \<Rightarrow> json" where
  "as_written JNull = JNull"
| "as_written (JBool b) = JBool b"
| "as_written (JNumber (Finite x)) = JNumber (Finite x)"
| "as_written (JNumber PosInfinity) = JNull"
| "as_written (JNumber NegInfinity) = JNull"
| "as_written (JString s) = JString s"
| "as_written (JArray xs) = JArray (map as_written xs)"
| "as_written (JObject kvs) = JObject (map (\<lambda>(k, v). (k, as_written v)) kvs)"

text \<open>A vote of \<^verbatim>\<open>votes.json\<close> as the handler of \<^verbatim>\<open>POST /api/votes\<close> meets it.\<close>

record StoredVote =
  stored_id :: string
  stored_questionId :: json
  stored_optionId :: json
  stored_deviceId :: json
  stored_timestamp :: string

definition written_vote :: "StoredVote \<Rightarrow> StoredVote" where
  "written_vote v =
     v\<lparr>stored_questionId := as_written (stored_questionId v),
       stored_optionId := as_written (stored_optionId v),
       stored_deviceId := as_written (stored_deviceId v)\<rparr>"

datatype body =
    ErrorBody string
  | SuccessBody
  | VoteBody StoredVote bool

datatype response = Response nat body

text \<open>The status code of an answer.\<close>

fun status :: "response \<Rightarrow> nat" where
  "status (Response code b) = code"

text \<open>\<^verbatim>\<open>!x\<close> for a field that is a string or absent: absent, or the empty string.\<close>

definition falsy :: "string option \<Rightarrow> bool" where
  "falsy x = (x = None \<or> x = Some [])"

record VoteRequest =
  req_questionId :: "json option"
  req_optionId :: "json option"
  req_deviceId :: "json option"

text \<open>\<^verbatim>\<open>Array.prototype.findIndex\<close>: the first index whose element satisfies the
  predicate; \<open>None\<close> is the \<^verbatim>\<open>-1\<close> of JavaScript.\<close>

fun findIndex :: "('a \<Rightarrow> bool) \<Rightarrow> 'a list \<Rightarrow> nat option" where
  "findIndex P [] = None"
| "findIndex P (x # xs) =
     (if P x then Some 0 else map_option Suc (findIndex P xs))"

text \<open>
  \<^verbatim>\<open>POST /api/votes\<close>. The clock (\<open>now\<close>, the ISO string of \<^verbatim>\<open>new Date()\<close>) and the
  identifier built from the clock and \<^verbatim>\<open>Math.random()\<close> (\<open>new_id\<close>) are inputs. The
  store returned is the one the next request reads: the list as \<^verbatim>\<open>writeVotesData\<close>
  wrote it. The vote of the answer is the vote as \<^verbatim>\<open>res.json\<close> writes it.
\<close>

definition post_votes ::
  "string \<Rightarrow> string \<Rightarrow> StoredVote list \<Rightarrow> VoteRequest \<Rightarrow> response \<times> StoredVote list" where
  "post_votes now new_id votes req =
     (if missing (req_questionId req) \<or> missing (req_optionId req) \<or> missing (req_deviceId req)
      then (Response 400 (ErrorBody ''Missing required fields''), votes)
      else
        let qid = the (req_questionId req);
            oid = the (req_optionId req);
            did = the (req_deviceId req)
        in case findIndex (\<lambda>v. strict_equal (stored_questionId v) qid \<and>
                                strict_equal (stored_deviceId v) did) votes of
             Some i \<Rightarrow>
               let votes' = votes[i := (votes ! i)\<lparr>stored_optionId := oid,
                                                   stored_timestamp := now\<rparr>]
               in (Response 200 (VoteBody (written_vote (votes' ! i)) True),
                   map written_vote votes')
           | None \<Rightarrow>
               let vote = \<lparr>stored_id = new_id, stored_questionId = qid,
                           stored_optionId = oid, stored_deviceId = did,
                           stored_timestamp = now\<rparr>
               in (Response 201 (VoteBody (written_vote vote) False),
                   map written_vote (votes @ [vote])))"

text \<open>A sequence of requests, each with its clock reading and fresh identifier.\<close>

fun run_posts ::
  "StoredVote list \<Rightarrow> (string \<times> string \<times> VoteRequest) list \<Rightarrow> StoredVote list" where
  "run_posts votes [] = votes"
| "run_posts votes ((now, new_id, req) # reqs) =
     run_posts (snd (post_votes now new_id votes req)) reqs"

definition one_vote_per_pair :: "StoredVote list \<Rightarrow> bool" where
  "one_vote_per_pair votes =
     distinct (map (\<lambda>v. (stored_questionId v, stored_deviceId v)) votes)"

text \<open>
  The values that \<^verbatim>\<open>===\<close> compares by value and that are written as they are:
  \<^verbatim>\<open>null\<close>, booleans, finite numbers and strings. A request is plain when its
  \<open>questionId\<close> and its \<open>deviceId\<close>, where present, are such values.
\<close>

fun plain :: "json \<Rightarrow> bool" where
  "plain JNull = True"
| "plain (JBool b) = True"
| "plain (JNumber (Finite x)) = True"
| "plain (JNumber PosInfinity) = False"
| "plain (JNumber NegInfinity) = False"
| "plain (JString s) = True"
| "plain (JArray xs) = False"
| "plain (JObject kvs) = False"

definition plain_field :: "json option \<Rightarrow> bool" where
  "plain_field x = (case x of None \<Rightarrow> True | Some v \<Rightarrow> plain v)"

definition plain_pair :: "VoteRequest \<Rightarrow> bool" where
  "plain_pair req = (plain_field (req_questionId req) \<and> plain_field (req_deviceId req))"

definition plain_requests :: "(string \<times> string \<times> VoteRequest) list \<Rightarrow> bool" where
  "plain_requests reqs = list_all (\<lambda>r. plain_pair (snd (snd r))) reqs"

text \<open>A store as the server writes it: reading it back changes nothing.\<close>

definition as_stored :: "StoredVote list \<Rightarrow> bool" where
  "as_stored votes = (map written_vote votes = votes)"


text \<open>
  \<^verbatim>\<open>DELETE /api/questions/:questionId/votes\<close>. An inherited \<^verbatim>\<open>question\<close> has no
  \<^verbatim>\<open>eventId\<close>, and \<^verbatim>\<open>events[undefined]\<close> reads the key \<^verbatim>\<open>"undefined"\<close>.
\<close>

definition arm_cleared :: "EventsData \<Rightarrow> string \<Rightarrow> string \<Rightarrow> EventsData" where
  "arm_cleared data eventId qid =
     (case js_get (events data) eventId of
        Own ev \<Rightarrow> data\<lparr>events := (events data)(eventId \<mapsto> ev\<lparr>clearedQuestionId := Some qid\<rparr>)\<rparr>
      | Inherited \<Rightarrow> data
      | Undefined \<Rightarrow> data)"

definition delete_votes ::
  "Vote list \<Rightarrow> EventsData \<Rightarrow> string \<Rightarrow> response \<times> Vote list \<times> EventsData" where
  "delete_votes votes data qid =
     (let votes' = filter (\<lambda>v. questionId v \<noteq> qid) votes;
          data' = (case js_get (questions data) qid of
                     Own question \<Rightarrow> arm_cleared data (question_eventId question) qid
                   | Inherited \<Rightarrow> arm_cleared data ''undefined'' qid
                   | Undefined \<Rightarrow> data)
      in (Response 200 SuccessBody, votes', data'))"

text \<open>\<^verbatim>\<open>POST /api/events/:eventId/clear-notification\<close>.\<close>

definition post_clear_notification :: "EventsData \<Rightarrow> string \<Rightarrow> response \<times> EventsData" where
  "post_clear_notification data eventId =
     (case js_get (events data) eventId of
        Own ev \<Rightarrow>
          (Response 200 SuccessBody,
           data\<lparr>events := (events data)(eventId \<mapsto> ev\<lparr>clearedQuestionId := None\<rparr>)\<rparr>)
      | Inherited \<Rightarrow> (Response 200 SuccessBody, data)
      | Undefined \<Rightarrow> (Response 200 SuccessBody, data))"

section \<open>Polling subscriptions (\<^verbatim>\<open>src/services/database.ts\<close>)\<close>

text \<open>
  A client runs one event at a time: a tick of the interval timer, the arrival of the
  answer to a fetch (after \<^verbatim>\<open>await response.json()\<close> the rest of the handler runs
  without interruption), or the call of the returned \<^verbatim>\<open>unsubscribe\<close>. A subscription
  is the closure's variables together with what the environment holds for it: whether
  the interval is still registered, how many fetches are issued and not yet answered,
  and the arguments the callback has been invoked with, oldest first. An answer is
  the answer to a fetch that was issued: with no fetch in flight an arrival cannot
  happen, and leaves the state as it is.
\<close>

datatype 'a fetch_result = NetworkError | NotOk | Ok 'a

datatype 'a poll_event = Tick | Arrive "'a fetch_result" | Unsubscribe

record 'c subscription =
  isSubscribed :: bool
  intervalActive :: bool
  inFlight :: nat
  calls :: "'c list"

record question_subscription = "string option subscription" +
  lastQuestionId :: "string option"

record cleared_subscription = "string subscription" +
  lastClearedId :: "string option"
  acks :: nat

text \<open>
  The interval callback and the returned function are written three times in the
  source, letter for letter the same; they are modelled once, for any subscription.
  A cleared interval does not fire.
\<close>

definition tick :: "('c, 'm) subscription_scheme \<Rightarrow> ('c, 'm) subscription_scheme" where
  "tick s =
     (if intervalActive s then
        (if isSubscribed s then s\<lparr>inFlight := inFlight s + 1\<rparr> else s)
      else s)"

definition unsubscribe :: "('c, 'm) subscription_scheme \<Rightarrow> ('c, 'm) subscription_scheme" where
  "unsubscribe s = s\<lparr>isSubscribed := False, intervalActive := False\<rparr>"

text \<open>\<^verbatim>\<open>subscribeToVotes\<close>: the state when the call returns, one fetch issued.\<close>

definition subscribeToVotes :: "Vote list subscription" where
  "subscribeToVotes =
     \<lparr>isSubscribed = True, intervalActive = True, inFlight = 1, calls = []\<rparr>"

definition fetchVotes_arrive ::
  "Vote list fetch_result \<Rightarrow> Vote list subscription \<Rightarrow> Vote list subscription" where
  "fetchVotes_arrive r s =
     (if inFlight s = 0 then s
      else
        let s1 = s\<lparr>inFlight := inFlight s - 1\<rparr>
        in case r of
             Ok votes \<Rightarrow> if isSubscribed s1 then s1\<lparr>calls := calls s1 @ [votes]\<rparr> else s1
           | NotOk \<Rightarrow> s1
           | NetworkError \<Rightarrow> s1)"

fun votes_step ::
  "Vote list poll_event \<Rightarrow> Vote list subscription \<Rightarrow> Vote list subscription" where
  "votes_step Tick s = tick s"
| "votes_step (Arrive r) s = fetchVotes_arrive r s"
| "votes_step Unsubscribe s = unsubscribe s"

text \<open>\<^verbatim>\<open>subscribeToCurrentQuestion\<close>. \<^verbatim>\<open>event.currentQuestionId || null\<close> turns an
  absent and an empty identifier into \<^verbatim>\<open>null\<close>.\<close>

definition or_null :: "string option \<Rightarrow> string option" where
  "or_null x = (if falsy x then None else x)"

definition subscribeToCurrentQuestion :: question_subscription where
  "subscribeToCurrentQuestion =
     \<lparr>isSubscribed = True, intervalActive = True, inFlight = 1, calls = [],
      lastQuestionId = None\<rparr>"

definition fetchCurrentQuestion_arrive ::
  "string option fetch_result \<Rightarrow> question_subscription \<Rightarrow> question_subscription" where
  "fetchCurrentQuestion_arrive r s =
     (if inFlight s = 0 then s
      else
        let s1 = s\<lparr>inFlight := inFlight s - 1\<rparr>
        in case r of
             Ok v \<Rightarrow>
               let currentId = or_null v
               in if isSubscribed s1 \<and> currentId \<noteq> lastQuestionId s1
                  then s1\<lparr>lastQuestionId := currentId, calls := calls s1 @ [currentId]\<rparr>
                  else s1
           | NotOk \<Rightarrow> s1
           | NetworkError \<Rightarrow> s1)"

fun question_step ::
  "string option poll_event \<Rightarrow> question_subscription \<Rightarrow> question_subscription" where
  "question_step Tick s = tick s"
| "question_step (Arrive r) s = fetchCurrentQuestion_arrive r s"
| "question_step Unsubscribe s = unsubscribe s"

text \<open>\<^verbatim>\<open>subscribeToVoteCleared\<close>. \<open>acks\<close> counts the fire-and-forget
  \<^verbatim>\<open>clear-notification\<close> requests sent.\<close>

definition subscribeToVoteCleared :: cleared_subscription where
  "subscribeToVoteCleared =
     \<lparr>isSubscribed = True, intervalActive = True, inFlight = 1, calls = [],
      lastClearedId = None, acks = 0\<rparr>"

definition fetchCleared_arrive ::
  "string option fetch_result \<Rightarrow> cleared_subscription \<Rightarrow> cleared_subscription" where
  "fetchCleared_arrive r s =
     (if inFlight s = 0 then s
      else
        let s1 = s\<lparr>inFlight := inFlight s - 1\<rparr>
        in case r of
             Ok clearedId \<Rightarrow>
               if isSubscribed s1 \<and> \<not> falsy clearedId \<and> clearedId \<noteq> lastClearedId s1
               then s1\<lparr>lastClearedId := clearedId,
                       calls := calls s1 @ [the clearedId],
                       acks := acks s1 + 1\<rparr>
               else s1
           | NotOk \<Rightarrow> s1
           | NetworkError \<Rightarrow> s1)"

fun cleared_step ::
  "string option poll_event \<Rightarrow> cleared_subscription \<Rightarrow> cleared_subscription" where
  "cleared_step Tick s = tick s"
| "cleared_step (Arrive r) s = fetchCleared_arrive r s"
| "cleared_step Unsubscribe s = unsubscribe s"



section \<open>Sample data\<close>

text \<open>The votes and options of the scenarios of the test suite.\<close>

definition example_votes :: "Vote list" where
  "example_votes =
     [\<lparr>vote_id = ''v1'', questionId = ''q1'', optionId = ''opt1'', deviceId = ''d1'', timestamp = ''t1''\<rparr>,
      \<lparr>vote_id = ''v2'', questionId = ''q1'', optionId = ''opt1'', deviceId = ''d2'', timestamp = ''t2''\<rparr>,
      \<lparr>vote_id = ''v3'', questionId = ''q1'', optionId = ''opt2'', deviceId = ''d3'', timestamp = ''t3''\<rparr>]"

definition example_options :: "Option list" where
  "example_options =
     [\<lparr>opt_id = ''opt1'', opt_label = ''TypeScript''\<rparr>,
      \<lparr>opt_id = ''opt2'', opt_label = ''Python''\<rparr>,
      \<lparr>opt_id = ''opt3'', opt_label = ''Rust''\<rparr>]"

text \<open>A storage that works and holds nothing yet.\<close>

definition working_storage :: localStorage where
  "working_storage = \<lparr>items = Map.empty, accessible = True, full = False\<rparr>"

text \<open>One vote, as the client reads it.\<close>

definition stored_vote :: Vote where
  "stored_vote = \<lparr>vote_id = ''vote_1'', questionId = ''q1'', optionId = ''opt1'',
                   deviceId = ''d1'', timestamp = ''t1''\<rparr>"

text \<open>
  The same vote as the backend stores it; a second choice of its device; a body without
  \<^verbatim>\<open>optionId\<close>; and a body whose \<^verbatim>\<open>deviceId\<close> is the array \<^verbatim>\<open>["d1"]\<close>.
\<close>

definition first_vote :: StoredVote where
  "first_vote = \<lparr>stored_id = ''vote_1'', stored_questionId = JString ''q1'',
                  stored_optionId = JString ''opt1'', stored_deviceId = JString ''d1'',
                  stored_timestamp = ''t1''\<rparr>"

definition revote_request :: VoteRequest where
  "revote_request = \<lparr>req_questionId = Some (JString ''q1''),
                      req_optionId = Some (JString ''opt2''),
                      req_deviceId = Some (JString ''d1'')\<rparr>"

definition incomplete_request :: VoteRequest where
  "incomplete_request = \<lparr>req_questionId = Some (JString ''q1''), req_optionId = None,
                          req_deviceId = Some (JString ''d1'')\<rparr>"

definition array_request :: VoteRequest where
  "array_request = \<lparr>req_questionId = Some (JString ''q1''),
                     req_optionId = Some (JString ''opt1''),
                     req_deviceId = Some (JArray [JString ''d1''])\<rparr>"

text \<open>An event with one question, and a vote on another question.\<close>

definition example_event :: Event where
  "example_event = \<lparr>event_id = ''e1'', event_name = ''demo'',
                     currentQuestionId = None, clearedQuestionId = None\<rparr>"

definition example_question :: Question where
  "example_question = \<lparr>question_id = ''q1'', question_eventId = ''e1'',
                        question_title = ''title'', question_options = example_options,
                        question_order = 1\<rparr>"

definition example_data :: EventsData where
  "example_data = \<lparr>events = [''e1'' \<mapsto> example_event],
                    questions = [''q1'' \<mapsto> example_question]\<rparr>"

definition other_vote :: Vote where
  "other_vote = \<lparr>vote_id = ''vote_9'', questionId = ''q2'', optionId = ''opt1'',
                  deviceId = ''d1'', timestamp = ''t0''\<rparr>"

section \<open>Properties of the stats calculator\<close>

lemma get_or_0_Nil: "get_or_0 [] k = 0"
  by (simp add: get_or_0_def)

lemma get_or_0_Cons:
  "get_or_0 ((k', c) # m) k = (if k' = k then c else get_or_0 m k)"
  by (simp add: get_or_0_def)

lemma sum_countMap_set:
  "sum_list (map snd (countMap_set m k (Suc (get_or_0 m k)))) = Suc (sum_list (map snd m))"
proof (induction m)
  case Nil
  show ?case by (simp add: get_or_0_Nil)
next
  case (Cons p m)
  obtain k' c where p: "p = (k', c)" by (cases p)
  show ?case using Cons.IH by (simp add: p get_or_0_Cons)
qed

lemma sum_count_votes:
  "sum_list (map snd (count_votes m votes)) = sum_list (map snd m) + length votes"
proof (induction votes arbitrary: m)
  case Nil
  show ?case by simp
next
  case (Cons v votes)
  show ?case by (simp add: Cons.IH sum_countMap_set)
qed

lemma get_or_0_countMap_set:
  "get_or_0 (countMap_set m k v) k' = (if k' = k then v else get_or_0 m k')"
proof (induction m)
  case Nil
  show ?case by (simp add: get_or_0_Cons get_or_0_Nil)
next
  case (Cons p m)
  obtain k0 c where p: "p = (k0, c)" by (cases p)
  show ?case using Cons.IH by (auto simp add: p get_or_0_Cons)
qed

lemma get_or_0_count_votes:
  "get_or_0 (count_votes m votes) k = get_or_0 m k + count_list (map optionId votes) k"
proof (induction votes arbitrary: m)
  case Nil
  show ?case by simp
next
  case (Cons v votes)
  show ?case by (simp add: Cons.IH get_or_0_countMap_set)
qed

lemma sum_count_list_distinct:
  assumes "distinct ks" and "set xs \<subseteq> set ks"
  shows "(\<Sum>k\<leftarrow>ks. count_list xs k) = length xs"
proof -
  have "(\<Sum>k\<leftarrow>ks. count_list xs k) = sum (count_list xs) (set ks)"
    using assms(1) by (simp add: sum_list_distinct_conv_sum_set)
  also have "\<dots> = length xs"
    using assms(2) by (simp add: sum_count_set)
  finally show ?thesis .
qed

lemma options_given:
  "opts \<noteq> [] \<Longrightarrow>
   options (calculateStats rnd votes opts) =
     map (\<lambda>option. \<lparr>stat_optionId = opt_id option, stat_label = opt_label option,
            stat_count = count_list (map optionId votes) (opt_id option),
            percentage = percentage_of rnd (count_list (map optionId votes) (opt_id option))
                           (length votes)\<rparr>) opts"
  by (simp add: calculateStats_def Let_def get_or_0_count_votes get_or_0_Nil)

lemma options_omitted:
  "options (calculateStats rnd votes []) =
     map (\<lambda>(oid, count). \<lparr>stat_optionId = oid, stat_label = oid, stat_count = count,
            percentage = percentage_of rnd count (length votes)\<rparr>) (count_votes [] votes)"
  by (simp add: calculateStats_def Let_def)

lemma totalVotes_length: "totalVotes (calculateStats rnd votes opts) = length votes"
  by (simp add: calculateStats_def Let_def)

text \<open>
  Claim C1, as the code has it. \<open>totalVotes\<close> is the length of the vote list, for
  every vote list and every option list. The counts of the returned entries add up to
  the length of the vote list when the option list is empty (or omitted), and when the
  options given have distinct identifiers and every vote names one of them.
\<close>

theorem calculateStats_totals:
  "totalVotes (calculateStats rnd votes opts) = length votes \<and>
   (opts = [] \<or> (distinct (map opt_id opts) \<and> optionId ` set votes \<subseteq> opt_id ` set opts)
     \<longrightarrow> sum_list (map stat_count (options (calculateStats rnd votes opts))) = length votes)"
proof (intro conjI impI)
  show "totalVotes (calculateStats rnd votes opts) = length votes"
    by (rule totalVotes_length)
next
  assume h: "opts = [] \<or> (distinct (map opt_id opts) \<and> optionId ` set votes \<subseteq> opt_id ` set opts)"
  show "sum_list (map stat_count (options (calculateStats rnd votes opts))) = length votes"
  proof (cases "opts = []")
    case True
    have "map stat_count (options (calculateStats rnd votes [])) = map snd (count_votes [] votes)"
      by (simp add: options_omitted split_def)
    then show ?thesis using True by (simp add: sum_count_votes)
  next
    case False
    with h have d: "distinct (map opt_id opts)"
      and sub: "set (map optionId votes) \<subseteq> set (map opt_id opts)" by auto
    have "map stat_count (options (calculateStats rnd votes opts)) =
            map (count_list (map optionId votes)) (map opt_id opts)"
      using False by (simp add: options_given comp_def)
    then show ?thesis
      using sum_count_list_distinct [OF d sub] by simp
  qed
qed

text \<open>
  The three votes of the scenario against three options: hypotheses and conclusion of
  C1 at a concrete input.
\<close>

theorem calculateStats_totals_witness:
  "distinct (map opt_id example_options) \<and>
   optionId ` set example_votes \<subseteq> opt_id ` set example_options \<and>
   totalVotes (calculateStats (\<lambda>x. x) example_votes example_options) = 3 \<and>
   sum_list (map stat_count (options (calculateStats (\<lambda>x. x) example_votes example_options))) = 3"
proof -
  have h: "distinct (map opt_id example_options) \<and>
      optionId ` set example_votes \<subseteq> opt_id ` set example_options"
    by (simp add: example_options_def example_votes_def)
  have l: "length example_votes = 3" by (simp add: example_votes_def)
  show ?thesis
    using h l calculateStats_totals [of "\<lambda>x. x" example_votes example_options] by simp
qed

text \<open>
  Claim C1 as stated fails: with an option list given, a vote for an option that is
  not in the list is counted in \<open>totalVotes\<close> and in no entry. One vote for
  \<^verbatim>\<open>opt9\<close> against the single option \<^verbatim>\<open>opt1\<close>: the counts add up to 0, the list
  has length 1.
\<close>

theorem calculateStats_counts_counterexample:
  "sum_list (map stat_count (options (calculateStats (\<lambda>x. x)
      [\<lparr>vote_id = ''v1'', questionId = ''q1'', optionId = ''opt9'', deviceId = ''d1'',
        timestamp = ''t1''\<rparr>]
      [\<lparr>opt_id = ''opt1'', opt_label = ''TypeScript''\<rparr>]))) = 0 \<and>
   length [\<lparr>vote_id = ''v1'', questionId = ''q1'', optionId = ''opt9'', deviceId = ''d1'',
        timestamp = ''t1''\<rparr>] = 1"
  by (simp add: calculateStats_def get_or_0_def)

text \<open>
  Claim C6. With a non-empty option list the result has one entry per option, in the
  order of the list, with the identifier and the label of the option, and with count 0
  for every option that no vote names.
\<close>

theorem calculateStats_follows_options:
  "opts \<noteq> [] \<Longrightarrow>
   length (options (calculateStats rnd votes opts)) = length opts \<and>
   map stat_optionId (options (calculateStats rnd votes opts)) = map opt_id opts \<and>
   map stat_label (options (calculateStats rnd votes opts)) = map opt_label opts \<and>
   (\<forall>i < length opts. opt_id (opts ! i) \<notin> optionId ` set votes \<longrightarrow>
        stat_count (options (calculateStats rnd votes opts) ! i) = 0)"
proof -
  assume ne: "opts \<noteq> []"
  have zero: "\<And>k. k \<notin> optionId ` set votes \<Longrightarrow> count_list (map optionId votes) k = 0"
    by (simp add: count_list_0_iff)
  show ?thesis
    by (simp add: options_given [OF ne] comp_def zero)
qed

text \<open>
  C6 at the scenario: the third option, \<^verbatim>\<open>opt3\<close>, has no vote and is reported with
  count 0, in third place.
\<close>

theorem calculateStats_follows_options_witness:
  "example_options \<noteq> [] \<and>
   map stat_optionId (options (calculateStats (\<lambda>x. x) example_votes example_options)) =
     [''opt1'', ''opt2'', ''opt3''] \<and>
   map stat_label (options (calculateStats (\<lambda>x. x) example_votes example_options)) =
     [''TypeScript'', ''Python'', ''Rust''] \<and>
   (2::nat) < length example_options \<and>
   opt_id (example_options ! 2) \<notin> optionId ` set example_votes \<and>
   stat_count (options (calculateStats (\<lambda>x. x) example_votes example_options) ! 2) = 0"
proof -
  have ne: "example_options \<noteq> []" by (simp add: example_options_def)
  have i: "(2::nat) < length example_options" by (simp add: example_options_def)
  have a: "opt_id (example_options ! 2) \<notin> optionId ` set example_votes"
    by (simp add: example_options_def example_votes_def)
  have ids: "map opt_id example_options = [''opt1'', ''opt2'', ''opt3'']"
    by (simp add: example_options_def)
  have labels: "map opt_label example_options = [''TypeScript'', ''Python'', ''Rust'']"
    by (simp add: example_options_def)
  note t = calculateStats_follows_options [OF ne, of "\<lambda>x. x" example_votes]
  from t have "stat_count (options (calculateStats (\<lambda>x. x) example_votes example_options) ! 2) = 0"
    using i a by blast
  with t ne i a ids labels show ?thesis by simp
qed

text \<open>
  Claim C7. Every returned entry has percentage \<^verbatim>\<open>count / totalVotes * 100\<close>, computed
  as the code computes it, when \<open>totalVotes\<close> is positive, and 0 when it is 0; the
  empty vote list gives \<open>totalVotes = 0\<close> and percentage 0 in every entry.
\<close>

theorem calculateStats_percentage:
  "(\<forall>s \<in> set (options (calculateStats rnd votes opts)).
      percentage s =
        (if totalVotes (calculateStats rnd votes opts) > 0
         then js_mul rnd (js_div rnd (real (stat_count s))
                (real (totalVotes (calculateStats rnd votes opts)))) 100
         else 0)) \<and>
   totalVotes (calculateStats rnd [] opts) = 0 \<and>
   (\<forall>s \<in> set (options (calculateStats rnd [] opts)). percentage s = 0)"
proof -
  have pct: "\<forall>s \<in> set (options (calculateStats rnd vs opts)).
      percentage s = percentage_of rnd (stat_count s) (length vs)" for vs
  proof (cases "opts = []")
    case True
    then show ?thesis by (auto simp add: options_omitted)
  next
    case False
    then show ?thesis by (auto simp add: options_given)
  qed
  have 1: "\<forall>s \<in> set (options (calculateStats rnd votes opts)).
      percentage s =
        (if totalVotes (calculateStats rnd votes opts) > 0
         then js_mul rnd (js_div rnd (real (stat_count s))
                (real (totalVotes (calculateStats rnd votes opts)))) 100
         else 0)"
    using pct [of votes] by (simp add: totalVotes_length percentage_of_def)
  have 2: "\<forall>s \<in> set (options (calculateStats rnd [] opts)). percentage s = 0"
    using pct [of "[]"] by (simp add: percentage_of_def)
  from 1 2 show ?thesis by (simp add: totalVotes_length)
qed

text \<open>
  C7 at the scenario, with exact arithmetic: the entry of \<^verbatim>\<open>opt1\<close> has 2 of 3 votes
  and percentage \<open>200 / 3\<close>; with no votes its percentage is 0.
\<close>

theorem calculateStats_percentage_witness:
  "\<lparr>stat_optionId = ''opt1'', stat_label = ''TypeScript'', stat_count = 2,
     percentage = 200 / 3\<rparr>
     \<in> set (options (calculateStats (\<lambda>x. x) example_votes example_options)) \<and>
   totalVotes (calculateStats (\<lambda>x. x) example_votes example_options) = 3 \<and>
   js_mul (\<lambda>x. x) (js_div (\<lambda>x. x) (real 2) (real 3)) 100 = 200 / 3 \<and>
   \<lparr>stat_optionId = ''opt1'', stat_label = ''TypeScript'', stat_count = 0,
     percentage = 0\<rparr>
     \<in> set (options (calculateStats (\<lambda>x. x) [] example_options))"
proof -
  have m1: "\<lparr>stat_optionId = ''opt1'', stat_label = ''TypeScript'', stat_count = 2,
     percentage = 200 / 3\<rparr>
     \<in> set (options (calculateStats (\<lambda>x. x) example_votes example_options))"
    by (simp add: calculateStats_def example_votes_def example_options_def get_or_0_def
        percentage_of_def js_mul_def js_div_def)
  have m2: "\<lparr>stat_optionId = ''opt1'', stat_label = ''TypeScript'', stat_count = 0,
     percentage = 0\<rparr>
     \<in> set (options (calculateStats (\<lambda>x. x) [] example_options))"
    by (simp add: calculateStats_def example_options_def get_or_0_def percentage_of_def)
  have tv: "totalVotes (calculateStats (\<lambda>x. x) example_votes example_options) = 3"
    by (simp add: totalVotes_length example_votes_def)
  note t = calculateStats_percentage [of "\<lambda>x. x" example_votes example_options]
  from t have "\<forall>s \<in> set (options (calculateStats (\<lambda>x. x) example_votes example_options)).
      percentage s = js_mul (\<lambda>x. x) (js_div (\<lambda>x. x) (real (stat_count s)) (real 3)) 100"
    by (simp add: tv)
  from bspec [OF this m1]
  have "js_mul (\<lambda>x. x) (js_div (\<lambda>x. x) (real 2) (real 3)) 100 = 200 / 3"
    by simp
  with m1 m2 tv show ?thesis by simp
qed

section \<open>Properties of the vote-status guard\<close>

lemma getStorageKey_inj: "getStorageKey a = getStorageKey b \<longleftrightarrow> a = b"
  by (simp add: getStorageKey_def)

lemma markAsVoted_ok:
  "qid \<noteq> [] \<Longrightarrow> accessible ls \<Longrightarrow> \<not> full ls \<Longrightarrow>
   markAsVoted ls qid = (True, ls\<lparr>items := (items ls)(getStorageKey qid \<mapsto> ''true'')\<rparr>)"
  by (simp add: markAsVoted_def setItem_def)

lemma clearVoteStatus_ok:
  "qid \<noteq> [] \<Longrightarrow> accessible ls \<Longrightarrow>
   clearVoteStatus ls qid = ls\<lparr>items := (items ls)(getStorageKey qid := None)\<rparr>"
  by (simp add: clearVoteStatus_def removeItem_def)

lemma checkVoteStatus_ok:
  "qid \<noteq> [] \<Longrightarrow> accessible ls \<Longrightarrow>
   checkVoteStatus ls qid = (items ls (getStorageKey qid) = Some ''true'')"
  by (simp add: checkVoteStatus_def getItem_def)

lemma markAsVoted_twice:
  "qid \<noteq> [] \<Longrightarrow> accessible ls \<Longrightarrow> \<not> full ls \<Longrightarrow>
   markAsVoted (snd (markAsVoted ls qid)) qid = markAsVoted ls qid"
  by (simp add: markAsVoted_ok)

lemma mark_times_once:
  "qid \<noteq> [] \<Longrightarrow> accessible ls \<Longrightarrow> \<not> full ls \<Longrightarrow>
   mark_times n qid (markAsVoted ls qid) = markAsVoted ls qid"
  by (induction n) (simp_all add: markAsVoted_twice)

text \<open>
  Claim C5, as the code has it: for every non-empty questionId and a storage that
  works. The status is false while the key is not stored; \<open>markAsVoted\<close> succeeds
  and makes it true; any number \<open>n + 1\<close> of calls of \<open>markAsVoted\<close> returns what one
  call returns and leaves the storage one call leaves; \<open>clearVoteStatus\<close> makes the
  status false again; marking or clearing one questionId leaves the status of every
  other questionId as it was.
\<close>

theorem voteStatus_lifecycle:
  assumes "qid \<noteq> []" and "accessible ls" and "\<not> full ls"
  shows "(items ls (getStorageKey qid) = None \<longrightarrow> \<not> checkVoteStatus ls qid) \<and>
         fst (markAsVoted ls qid) \<and>
         checkVoteStatus (snd (markAsVoted ls qid)) qid \<and>
         mark_times (Suc n) qid (b, ls) = markAsVoted ls qid \<and>
         checkVoteStatus (snd (mark_times (Suc n) qid (b, ls))) qid \<and>
         \<not> checkVoteStatus (clearVoteStatus (snd (markAsVoted ls qid)) qid) qid \<and>
         (qid' \<noteq> qid \<longrightarrow>
            checkVoteStatus (snd (markAsVoted ls qid)) qid' = checkVoteStatus ls qid' \<and>
            checkVoteStatus (clearVoteStatus ls qid) qid' = checkVoteStatus ls qid')"
proof -
  have 1: "items ls (getStorageKey qid) = None \<longrightarrow> \<not> checkVoteStatus ls qid"
    using assms by (simp add: checkVoteStatus_ok)
  have 2: "fst (markAsVoted ls qid)"
    using assms by (simp add: markAsVoted_ok)
  have 3: "checkVoteStatus (snd (markAsVoted ls qid)) qid"
    using assms by (simp add: markAsVoted_ok checkVoteStatus_ok)
  have 4: "mark_times (Suc n) qid (b, ls) = markAsVoted ls qid"
    using assms by (simp add: mark_times_once)
  have 5: "\<not> checkVoteStatus (clearVoteStatus (snd (markAsVoted ls qid)) qid) qid"
    using assms by (simp add: markAsVoted_ok clearVoteStatus_ok checkVoteStatus_ok)
  have 6: "checkVoteStatus (snd (markAsVoted ls qid)) qid' = checkVoteStatus ls qid'"
    if "qid' \<noteq> qid"
    using assms that
    by (simp add: markAsVoted_ok checkVoteStatus_def getItem_def getStorageKey_inj)
  have 7: "checkVoteStatus (clearVoteStatus ls qid) qid' = checkVoteStatus ls qid'"
    if "qid' \<noteq> qid"
    using assms that
    by (simp add: clearVoteStatus_ok checkVoteStatus_def getItem_def getStorageKey_inj)
  from 1 2 3 4 5 6 7 show ?thesis by simp
qed

text \<open>
  C5 on an empty working storage, for the questionIds \<^verbatim>\<open>q1\<close> and \<^verbatim>\<open>q2\<close> and three
  calls of \<open>markAsVoted\<close>.
\<close>

theorem voteStatus_lifecycle_witness:
  "''q1'' \<noteq> [] \<and> accessible working_storage \<and> \<not> full working_storage \<and>
   items working_storage (getStorageKey ''q1'') = None \<and>
   \<not> checkVoteStatus working_storage ''q1'' \<and>
   checkVoteStatus (snd (markAsVoted working_storage ''q1'')) ''q1'' \<and>
   mark_times 3 ''q1'' (False, working_storage) = markAsVoted working_storage ''q1'' \<and>
   \<not> checkVoteStatus (clearVoteStatus (snd (markAsVoted working_storage ''q1'')) ''q1'') ''q1'' \<and>
   ''q2'' \<noteq> ''q1'' \<and>
   \<not> checkVoteStatus (snd (markAsVoted working_storage ''q1'')) ''q2''"
proof -
  have h: "''q1'' \<noteq> []" "accessible working_storage" "\<not> full working_storage"
    by (simp_all add: working_storage_def)
  have e: "items working_storage (getStorageKey ''q1'') = None"
    by (simp add: working_storage_def)
  have d: "''q2'' \<noteq> ''q1''" by simp
  have c2: "\<not> checkVoteStatus working_storage ''q2''"
    by (simp add: checkVoteStatus_def getItem_def working_storage_def)
  have n: "(3::nat) = Suc 2" by simp
  note t = voteStatus_lifecycle [OF h, of 2 False "''q2''"]
  from t h e d c2 show ?thesis unfolding n by simp
qed

text \<open>
  Claim C5 as stated, for all questionIds, fails at the empty questionId: the guard
  \<^verbatim>\<open>if (!questionId) return false\<close> makes \<open>markAsVoted\<close> return false and store
  nothing, and the status is false after the call.
\<close>

theorem markAsVoted_empty_counterexample:
  "\<not> fst (markAsVoted working_storage []) \<and>
   \<not> checkVoteStatus (snd (markAsVoted working_storage [])) []"
  by (simp add: markAsVoted_def checkVoteStatus_def)

section \<open>Properties of the backend\<close>

lemma findIndex_None: "findIndex P xs = None \<longleftrightarrow> (\<forall>x \<in> set xs. \<not> P x)"
  by (induction xs) auto

lemma findIndex_Some:
  "findIndex P xs = Some i \<Longrightarrow> i < length xs \<and> P (xs ! i)"
proof (induction xs arbitrary: i)
  case Nil
  then show ?case by simp
next
  case (Cons x xs)
  show ?case
  proof (cases "P x")
    case True
    with Cons.prems show ?thesis by simp
  next
    case False
    with Cons.prems obtain j where j: "findIndex P xs = Some j" and i: "i = Suc j"
      by auto
    from Cons.IH [OF j] i show ?thesis by simp
  qed
qed

lemma as_written_idem: "as_written (as_written v) = as_written v"
proof (induction v rule: as_written.induct)
  case (7 xs)
  then show ?case by simp
next
  case (8 kvs)
  then show ?case by (auto simp add: case_prod_beta)
qed simp_all

lemma plain_as_written: "plain v \<Longrightarrow> as_written v = v"
  by (induction v rule: plain.induct) simp_all

lemma strict_equal_plain: "plain b \<Longrightarrow> strict_equal a b \<longleftrightarrow> a = b"
  by (induction a b rule: strict_equal.induct) auto

lemma written_vote_idem: "written_vote (written_vote v) = written_vote v"
  by (simp add: written_vote_def as_written_idem)

lemma written_vote_update:
  "written_vote (v\<lparr>stored_optionId := oid, stored_timestamp := now\<rparr>) =
   (written_vote v)\<lparr>stored_optionId := as_written oid, stored_timestamp := now\<rparr>"
  by (simp add: written_vote_def)

lemma as_stored_nth: "as_stored votes \<Longrightarrow> i < length votes \<Longrightarrow> written_vote (votes ! i) = votes ! i"
  unfolding as_stored_def by (metis nth_map)

lemma written_vote_comp: "written_vote \<circ> written_vote = written_vote"
  by (rule ext) (simp add: written_vote_idem)

lemma post_votes_missing:
  "missing (req_questionId req) \<or> missing (req_optionId req) \<or> missing (req_deviceId req) \<Longrightarrow>
   post_votes now new_id votes req =
     (Response 400 (ErrorBody ''Missing required fields''), votes)"
  by (simp add: post_votes_def)

lemma post_votes_update:
  assumes "\<not> missing (req_questionId req)" and "\<not> missing (req_optionId req)"
    and "\<not> missing (req_deviceId req)"
    and "findIndex (\<lambda>v. strict_equal (stored_questionId v) (the (req_questionId req)) \<and>
                         strict_equal (stored_deviceId v) (the (req_deviceId req))) votes = Some i"
    and "as_stored votes"
  shows "post_votes now new_id votes req =
     (Response 200 (VoteBody ((votes ! i)\<lparr>stored_optionId := as_written (the (req_optionId req)),
                                          stored_timestamp := now\<rparr>) True),
      votes[i := (votes ! i)\<lparr>stored_optionId := as_written (the (req_optionId req)),
                              stored_timestamp := now\<rparr>])"
proof -
  from findIndex_Some [OF assms(4)] have i: "i < length votes" by simp
  have w: "written_vote (votes ! i) = votes ! i" by (rule as_stored_nth [OF assms(5) i])
  have m: "map written_vote votes = votes" using assms(5) by (simp add: as_stored_def)
  show ?thesis
    using assms(1-4) i
    by (simp add: post_votes_def Let_def map_update written_vote_update w m)
qed

lemma post_votes_new:
  assumes "\<not> missing (req_questionId req)" and "\<not> missing (req_optionId req)"
    and "\<not> missing (req_deviceId req)"
    and "findIndex (\<lambda>v. strict_equal (stored_questionId v) (the (req_questionId req)) \<and>
                         strict_equal (stored_deviceId v) (the (req_deviceId req))) votes = None"
  shows "snd (post_votes now new_id votes req) =
     map written_vote votes @
       [written_vote \<lparr>stored_id = new_id, stored_questionId = the (req_questionId req),
                stored_optionId = the (req_optionId req),
                stored_deviceId = the (req_deviceId req), stored_timestamp = now\<rparr>]"
  using assms by (simp add: post_votes_def Let_def)

lemma post_votes_as_stored:
  assumes "as_stored votes"
  shows "as_stored (snd (post_votes now new_id votes req))"
proof (cases "missing (req_questionId req) \<or> missing (req_optionId req) \<or>
              missing (req_deviceId req)")
  case True
  then show ?thesis using assms by (simp add: post_votes_missing)
next
  case False
  then show ?thesis
    by (simp add: post_votes_def Let_def as_stored_def written_vote_comp written_vote_idem
        split: option.splits)
qed

lemma post_votes_invariant:
  assumes "as_stored votes" and "one_vote_per_pair votes" and "plain_pair req"
  shows "one_vote_per_pair (snd (post_votes now new_id votes req))"
proof (cases "missing (req_questionId req) \<or> missing (req_optionId req) \<or>
              missing (req_deviceId req)")
  case True
  then show ?thesis using assms by (simp add: post_votes_missing)
next
  case False
  then have t: "\<not> missing (req_questionId req)" "\<not> missing (req_optionId req)"
    "\<not> missing (req_deviceId req)" by simp_all
  from t obtain qid did where q: "req_questionId req = Some qid"
    and d: "req_deviceId req = Some did"
    by (auto simp add: missing_def split: option.splits)
  from assms(3) q d have pq: "plain qid" and pd: "plain did"
    by (simp_all add: plain_pair_def plain_field_def)
  let ?P = "\<lambda>v. strict_equal (stored_questionId v) (the (req_questionId req)) \<and>
                 strict_equal (stored_deviceId v) (the (req_deviceId req))"
  have P: "?P v \<longleftrightarrow> stored_questionId v = qid \<and> stored_deviceId v = did" for v
    by (simp add: q d strict_equal_plain [OF pq] strict_equal_plain [OF pd])
  have m: "map written_vote votes = votes" using assms(1) by (simp add: as_stored_def)
  show ?thesis
  proof (cases "findIndex ?P votes")
    case None
    then have "\<forall>v \<in> set votes. \<not> ?P v" by (simp add: findIndex_None)
    then have "(qid, did) \<notin> set (map (\<lambda>v. (stored_questionId v, stored_deviceId v)) votes)"
      using P by auto
    then show ?thesis
      using assms(2) post_votes_new [OF t None, of now new_id]
      by (simp add: one_vote_per_pair_def m written_vote_def q d
          plain_as_written [OF pq] plain_as_written [OF pd])
  next
    case (Some i)
    have "map (\<lambda>v. (stored_questionId v, stored_deviceId v))
            (votes[i := (votes ! i)\<lparr>stored_optionId := as_written (the (req_optionId req)),
                                    stored_timestamp := now\<rparr>])
          = map (\<lambda>v. (stored_questionId v, stored_deviceId v)) votes"
      using findIndex_Some [OF Some] by (simp add: map_update list_update_same_conv)
    then show ?thesis
      using assms(2) post_votes_update [OF t Some assms(1), of now new_id]
      by (simp add: one_vote_per_pair_def)
  qed
qed

lemma run_posts_invariant:
  "as_stored votes \<Longrightarrow> one_vote_per_pair votes \<Longrightarrow> plain_requests reqs \<Longrightarrow>
   one_vote_per_pair (run_posts votes reqs) \<and> as_stored (run_posts votes reqs)"
proof (induction reqs arbitrary: votes)
  case Nil
  then show ?case by simp
next
  case (Cons r reqs)
  obtain now new_id req where r: "r = (now, new_id, req)" by (cases r)
  from Cons.prems(3) have p: "plain_pair req" and ps: "plain_requests reqs"
    by (simp_all add: plain_requests_def r)
  have a: "as_stored (snd (post_votes now new_id votes req))"
    by (rule post_votes_as_stored [OF Cons.prems(1)])
  have b: "one_vote_per_pair (snd (post_votes now new_id votes req))"
    by (rule post_votes_invariant [OF Cons.prems(1) Cons.prems(2) p])
  show ?case
    unfolding r run_posts.simps by (rule Cons.IH [OF a b ps])
qed

text \<open>
  Claim C2, as the code has it. Take requests whose \<open>questionId\<close> and \<open>deviceId\<close> are
  strings (or other values that \<^verbatim>\<open>===\<close> compares by value: booleans, finite numbers),
  and a store as the server writes it. Whatever such requests arrive, a store with at
  most one vote per (questionId, deviceId) pair stays so, and so does the store that
  starts empty. A complete request for a pair that has a vote is answered with that
  vote, its \<open>optionId\<close> and \<open>timestamp\<close> replaced and \<^verbatim>\<open>updated: true\<close>, and the store
  is the old one with that record replaced in its place. A request of any kind with a
  missing or falsy \<open>questionId\<close>, \<open>optionId\<close> or \<open>deviceId\<close> is answered with status
  400 and leaves the store as it was.
\<close>

theorem post_votes_one_vote_per_pair:
  "(as_stored votes \<and> one_vote_per_pair votes \<and> plain_requests reqs \<longrightarrow>
      one_vote_per_pair (run_posts votes reqs) \<and> as_stored (run_posts votes reqs)) \<and>
   (plain_requests reqs \<longrightarrow> one_vote_per_pair (run_posts [] reqs)) \<and>
   (as_stored votes \<and> truthy qid \<and> truthy oid \<and> truthy did \<and> plain qid \<and> plain did \<and>
    (\<exists>v \<in> set votes. stored_questionId v = qid \<and> stored_deviceId v = did) \<longrightarrow>
      (\<exists>i < length votes.
         stored_questionId (votes ! i) = qid \<and> stored_deviceId (votes ! i) = did \<and>
         post_votes now new_id votes
           \<lparr>req_questionId = Some qid, req_optionId = Some oid, req_deviceId = Some did\<rparr> =
           (Response 200
              (VoteBody ((votes ! i)\<lparr>stored_optionId := as_written oid,
                                      stored_timestamp := now\<rparr>) True),
            votes[i := (votes ! i)\<lparr>stored_optionId := as_written oid,
                                    stored_timestamp := now\<rparr>]) \<and>
         length (snd (post_votes now new_id votes
           \<lparr>req_questionId = Some qid, req_optionId = Some oid, req_deviceId = Some did\<rparr>))
           = length votes)) \<and>
   (missing (req_questionId req) \<or> missing (req_optionId req) \<or> missing (req_deviceId req) \<longrightarrow>
      post_votes now new_id votes req =
        (Response 400 (ErrorBody ''Missing required fields''), votes))"
proof (intro conjI impI)
  assume h: "as_stored votes \<and> one_vote_per_pair votes \<and> plain_requests reqs"
  then have "one_vote_per_pair (run_posts votes reqs) \<and> as_stored (run_posts votes reqs)"
    by (simp add: run_posts_invariant)
  then show "one_vote_per_pair (run_posts votes reqs)" and "as_stored (run_posts votes reqs)"
    by simp_all
next
  assume "plain_requests reqs"
  moreover have "as_stored []" by (simp add: as_stored_def)
  moreover have "one_vote_per_pair []" by (simp add: one_vote_per_pair_def)
  ultimately show "one_vote_per_pair (run_posts [] reqs)"
    by (simp add: run_posts_invariant)
next
  let ?req = "\<lparr>req_questionId = Some qid, req_optionId = Some oid, req_deviceId = Some did\<rparr>"
  let ?P = "\<lambda>v. strict_equal (stored_questionId v) qid \<and> strict_equal (stored_deviceId v) did"
  assume h: "as_stored votes \<and> truthy qid \<and> truthy oid \<and> truthy did \<and> plain qid \<and> plain did \<and>
    (\<exists>v \<in> set votes. stored_questionId v = qid \<and> stored_deviceId v = did)"
  then have P: "?P v \<longleftrightarrow> stored_questionId v = qid \<and> stored_deviceId v = did" for v
    by (simp add: strict_equal_plain)
  from h have "findIndex ?P votes \<noteq> None" by (simp add: findIndex_None P)
  then obtain i where i: "findIndex ?P votes = Some i" by auto
  have t: "\<not> missing (req_questionId ?req)" "\<not> missing (req_optionId ?req)"
    "\<not> missing (req_deviceId ?req)" using h by (simp_all add: missing_def)
  have i': "findIndex (\<lambda>v. strict_equal (stored_questionId v) (the (req_questionId ?req)) \<and>
                         strict_equal (stored_deviceId v) (the (req_deviceId ?req))) votes = Some i"
    using i by simp
  from h have a: "as_stored votes" by simp
  have "post_votes now new_id votes ?req =
           (Response 200
              (VoteBody ((votes ! i)\<lparr>stored_optionId := as_written oid,
                                      stored_timestamp := now\<rparr>) True),
            votes[i := (votes ! i)\<lparr>stored_optionId := as_written oid,
                                    stored_timestamp := now\<rparr>])"
    using post_votes_update [OF t i' a, of now new_id] by simp
  moreover from findIndex_Some [OF i] have "i < length votes"
    and "stored_questionId (votes ! i) = qid \<and> stored_deviceId (votes ! i) = did"
    by (simp_all add: P)
  ultimately
  show "\<exists>i < length votes.
         stored_questionId (votes ! i) = qid \<and> stored_deviceId (votes ! i) = did \<and>
         post_votes now new_id votes ?req =
           (Response 200
              (VoteBody ((votes ! i)\<lparr>stored_optionId := as_written oid,
                                      stored_timestamp := now\<rparr>) True),
            votes[i := (votes ! i)\<lparr>stored_optionId := as_written oid,
                                    stored_timestamp := now\<rparr>]) \<and>
         length (snd (post_votes now new_id votes ?req)) = length votes"
    by auto
next
  assume "missing (req_questionId req) \<or> missing (req_optionId req) \<or> missing (req_deviceId req)"
  then show "post_votes now new_id votes req =
        (Response 400 (ErrorBody ''Missing required fields''), votes)"
    by (rule post_votes_missing)
qed

text \<open>
  C2 on a store with one vote: the same device votes again for \<^verbatim>\<open>opt2\<close>, and the store
  still holds one vote, now for \<^verbatim>\<open>opt2\<close>; a body without \<^verbatim>\<open>optionId\<close> changes nothing.
\<close>

theorem post_votes_one_vote_per_pair_witness:
  "as_stored [first_vote] \<and> one_vote_per_pair [first_vote] \<and>
   plain_requests [(''t2'', ''vote_2'', revote_request)] \<and>
   one_vote_per_pair (run_posts [first_vote] [(''t2'', ''vote_2'', revote_request)]) \<and>
   one_vote_per_pair (run_posts [] [(''t2'', ''vote_2'', revote_request)]) \<and>
   truthy (JString ''q1'') \<and> truthy (JString ''opt2'') \<and> truthy (JString ''d1'') \<and>
   plain (JString ''q1'') \<and> plain (JString ''d1'') \<and>
   (\<exists>v \<in> set [first_vote].
      stored_questionId v = JString ''q1'' \<and> stored_deviceId v = JString ''d1'') \<and>
   post_votes ''t2'' ''vote_2'' [first_vote] revote_request =
     (Response 200
        (VoteBody (first_vote\<lparr>stored_optionId := JString ''opt2'',
                               stored_timestamp := ''t2''\<rparr>) True),
      [first_vote\<lparr>stored_optionId := JString ''opt2'', stored_timestamp := ''t2''\<rparr>]) \<and>
   missing (req_optionId incomplete_request) \<and>
   post_votes ''t2'' ''vote_2'' [first_vote] incomplete_request =
     (Response 400 (ErrorBody ''Missing required fields''), [first_vote])"
proof -
  have st: "as_stored [first_vote]"
    by (simp add: as_stored_def written_vote_def first_vote_def)
  have inv: "one_vote_per_pair [first_vote]" by (simp add: one_vote_per_pair_def)
  have pl: "plain_requests [(''t2'', ''vote_2'', revote_request)]"
    by (simp add: plain_requests_def plain_pair_def plain_field_def revote_request_def)
  have ex: "\<exists>v \<in> set [first_vote].
      stored_questionId v = JString ''q1'' \<and> stored_deviceId v = JString ''d1''"
    by (simp add: first_vote_def)
  have tr: "truthy (JString ''q1'')" "truthy (JString ''opt2'')" "truthy (JString ''d1'')"
    "plain (JString ''q1'')" "plain (JString ''d1'')" by simp_all
  have f: "missing (req_optionId incomplete_request)"
    by (simp add: incomplete_request_def missing_def)
  note t = post_votes_one_vote_per_pair [of "[first_vote]"
      "[(''t2'', ''vote_2'', revote_request)]" "JString ''q1''" "JString ''opt2''"
      "JString ''d1''" "''t2''" "''vote_2''" incomplete_request]
  from t st inv pl
  have 1: "one_vote_per_pair (run_posts [first_vote] [(''t2'', ''vote_2'', revote_request)])"
    by blast
  from t pl
  have 2: "one_vote_per_pair (run_posts [] [(''t2'', ''vote_2'', revote_request)])"
    by blast
  from t st tr ex have 3: "post_votes ''t2'' ''vote_2'' [first_vote] revote_request =
     (Response 200
        (VoteBody (first_vote\<lparr>stored_optionId := JString ''opt2'',
                               stored_timestamp := ''t2''\<rparr>) True),
      [first_vote\<lparr>stored_optionId := JString ''opt2'', stored_timestamp := ''t2''\<rparr>])"
    by (simp add: revote_request_def)
  from t f have 4: "post_votes ''t2'' ''vote_2'' [first_vote] incomplete_request =
     (Response 400 (ErrorBody ''Missing required fields''), [first_vote])"
    by blast
  from st inv pl ex tr f 1 2 3 4 show ?thesis by simp
qed

text \<open>
  Claim C2 as stated, for every sequence of requests, fails for a request whose
  \<open>deviceId\<close> is an array: the array of the body is never \<^verbatim>\<open>===\<close> the array of the
  store, so the same request sent twice to the empty store is answered with status
  201 both times and leaves two votes with the same (questionId, deviceId) pair.
\<close>

theorem post_votes_array_counterexample:
  "status (fst (post_votes ''t2'' ''vote_2''
       (run_posts [] [(''t1'', ''vote_1'', array_request)]) array_request)) = 201 \<and>
   run_posts [] [(''t1'', ''vote_1'', array_request), (''t2'', ''vote_2'', array_request)] =
     [\<lparr>stored_id = ''vote_1'', stored_questionId = JString ''q1'',
       stored_optionId = JString ''opt1'', stored_deviceId = JArray [JString ''d1''],
       stored_timestamp = ''t1''\<rparr>,
      \<lparr>stored_id = ''vote_2'', stored_questionId = JString ''q1'',
       stored_optionId = JString ''opt1'', stored_deviceId = JArray [JString ''d1''],
       stored_timestamp = ''t2''\<rparr>] \<and>
   \<not> one_vote_per_pair
       (run_posts [] [(''t1'', ''vote_1'', array_request), (''t2'', ''vote_2'', array_request)])"
  by (simp add: post_votes_def array_request_def missing_def written_vote_def
      one_vote_per_pair_def Let_def)

lemma js_get_Some: "obj key = Some v \<Longrightarrow> js_get obj key = Own v"
  by (simp add: js_get_def)

lemma delete_votes_store:
  "fst (snd (delete_votes votes data qid)) = filter (\<lambda>v. questionId v \<noteq> qid) votes"
  by (simp add: delete_votes_def Let_def)

lemma delete_votes_arms:
  assumes "questions data qid = Some question"
    and "events data (question_eventId question) = Some ev"
  shows "snd (snd (delete_votes votes data qid)) =
     data\<lparr>events := (events data)(question_eventId question \<mapsto>
                         ev\<lparr>clearedQuestionId := Some qid\<rparr>)\<rparr>"
  using assms
  by (simp add: delete_votes_def Let_def arm_cleared_def js_get_Some)

lemma post_clear_notification_resets:
  assumes "events data eventId = Some ev"
  shows "post_clear_notification data eventId =
     (Response 200 SuccessBody,
      data\<lparr>events := (events data)(eventId \<mapsto> ev\<lparr>clearedQuestionId := None\<rparr>)\<rparr>)"
  using assms by (simp add: post_clear_notification_def js_get_Some)

text \<open>
  Claim C9. \<^verbatim>\<open>DELETE /questions/{questionId}/votes\<close> answers with success for every
  questionId; the store holds afterwards the votes of the other questions, each as it
  was and in the old order, and no vote of that question. When the question is stored
  and its event is stored, the event's \<open>clearedQuestionId\<close> is that questionId
  afterwards and nothing else of the events data has changed; a following
  \<^verbatim>\<open>POST /events/{eventId}/clear-notification\<close> puts \<open>clearedQuestionId\<close> back to null.
\<close>

theorem delete_votes_clears_and_arms:
  "fst (delete_votes votes data qid) = Response 200 SuccessBody \<and>
   (\<forall>v \<in> set (fst (snd (delete_votes votes data qid))). questionId v \<noteq> qid) \<and>
   (\<forall>q'. q' \<noteq> qid \<longrightarrow>
      filter (\<lambda>v. questionId v = q') (fst (snd (delete_votes votes data qid))) =
      filter (\<lambda>v. questionId v = q') votes) \<and>
   (\<forall>question ev.
      questions data qid = Some question \<and>
      events data (question_eventId question) = Some ev \<longrightarrow>
        snd (snd (delete_votes votes data qid)) =
          data\<lparr>events := (events data)(question_eventId question \<mapsto>
                              ev\<lparr>clearedQuestionId := Some qid\<rparr>)\<rparr> \<and>
        post_clear_notification (snd (snd (delete_votes votes data qid)))
            (question_eventId question) =
          (Response 200 SuccessBody,
           data\<lparr>events := (events data)(question_eventId question \<mapsto>
                              ev\<lparr>clearedQuestionId := None\<rparr>)\<rparr>))"
proof (intro conjI allI impI ballI)
  show "fst (delete_votes votes data qid) = Response 200 SuccessBody"
    by (simp add: delete_votes_def Let_def)
next
  fix v assume "v \<in> set (fst (snd (delete_votes votes data qid)))"
  then show "questionId v \<noteq> qid" by (simp add: delete_votes_store)
next
  fix q' assume "q' \<noteq> qid"
  then show "filter (\<lambda>v. questionId v = q') (fst (snd (delete_votes votes data qid))) =
      filter (\<lambda>v. questionId v = q') votes"
    by (auto simp add: delete_votes_store intro!: filter_cong)
next
  fix question ev
  assume h: "questions data qid = Some question \<and>
      events data (question_eventId question) = Some ev"
  then show "snd (snd (delete_votes votes data qid)) =
          data\<lparr>events := (events data)(question_eventId question \<mapsto>
                              ev\<lparr>clearedQuestionId := Some qid\<rparr>)\<rparr>"
    by (simp add: delete_votes_arms)
next
  fix question ev
  assume h: "questions data qid = Some question \<and>
      events data (question_eventId question) = Some ev"
  let ?d = "data\<lparr>events := (events data)(question_eventId question \<mapsto>
                              ev\<lparr>clearedQuestionId := Some qid\<rparr>)\<rparr>"
  have a: "snd (snd (delete_votes votes data qid)) = ?d"
    using h by (simp add: delete_votes_arms)
  have e: "events ?d (question_eventId question) = Some (ev\<lparr>clearedQuestionId := Some qid\<rparr>)"
    by simp
  show "post_clear_notification (snd (snd (delete_votes votes data qid)))
            (question_eventId question) =
          (Response 200 SuccessBody,
           data\<lparr>events := (events data)(question_eventId question \<mapsto>
                              ev\<lparr>clearedQuestionId := None\<rparr>)\<rparr>)"
    unfolding a post_clear_notification_resets [OF e] by simp
qed

text \<open>
  C9 on the sample data: of a vote on \<^verbatim>\<open>q1\<close> and a vote on \<^verbatim>\<open>q2\<close>, deleting the votes
  of \<^verbatim>\<open>q1\<close> leaves the second; event \<^verbatim>\<open>e1\<close> is armed with \<^verbatim>\<open>q1\<close>, and disarmed by the
  clear notification.
\<close>

theorem delete_votes_clears_and_arms_witness:
  "fst (snd (delete_votes [stored_vote, other_vote] example_data ''q1'')) = [other_vote] \<and>
   other_vote \<in> set (fst (snd (delete_votes [stored_vote, other_vote] example_data ''q1''))) \<and>
   questionId other_vote \<noteq> ''q1'' \<and>
   ''q2'' \<noteq> ''q1'' \<and>
   filter (\<lambda>v. questionId v = ''q2'')
      (fst (snd (delete_votes [stored_vote, other_vote] example_data ''q1''))) = [other_vote] \<and>
   questions example_data ''q1'' = Some example_question \<and>
   events example_data (question_eventId example_question) = Some example_event \<and>
   events (snd (snd (delete_votes [stored_vote, other_vote] example_data ''q1''))) ''e1'' =
     Some (example_event\<lparr>clearedQuestionId := Some ''q1''\<rparr>) \<and>
   events (snd (post_clear_notification
       (snd (snd (delete_votes [stored_vote, other_vote] example_data ''q1''))) ''e1'')) ''e1'' =
     Some (example_event\<lparr>clearedQuestionId := None\<rparr>)"
proof -
  have s: "fst (snd (delete_votes [stored_vote, other_vote] example_data ''q1'')) = [other_vote]"
    by (simp add: delete_votes_def Let_def stored_vote_def other_vote_def)
  have q: "questions example_data ''q1'' = Some example_question"
    by (simp add: example_data_def)
  have e: "events example_data (question_eventId example_question) = Some example_event"
    by (simp add: example_data_def example_question_def)
  have eid: "question_eventId example_question = ''e1''"
    by (simp add: example_question_def)
  have o: "questionId other_vote = ''q2''" by (simp add: other_vote_def)
  note t = delete_votes_clears_and_arms [of "[stored_vote, other_vote]" example_data "''q1''"]
  from t have 1: "\<forall>v \<in> set (fst (snd (delete_votes [stored_vote, other_vote] example_data ''q1''))).
      questionId v \<noteq> ''q1''" by blast
  from t have 2: "filter (\<lambda>v. questionId v = ''q2'')
      (fst (snd (delete_votes [stored_vote, other_vote] example_data ''q1''))) =
      filter (\<lambda>v. questionId v = ''q2'') [stored_vote, other_vote]" by simp
  from t q e have 3: "snd (snd (delete_votes [stored_vote, other_vote] example_data ''q1'')) =
      example_data\<lparr>events := (events example_data)(''e1'' \<mapsto>
           example_event\<lparr>clearedQuestionId := Some ''q1''\<rparr>)\<rparr>"
    unfolding eid [symmetric] by blast
  from t q e have 4: "post_clear_notification
       (snd (snd (delete_votes [stored_vote, other_vote] example_data ''q1''))) ''e1'' =
      (Response 200 SuccessBody,
       example_data\<lparr>events := (events example_data)(''e1'' \<mapsto>
           example_event\<lparr>clearedQuestionId := None\<rparr>)\<rparr>)"
    unfolding eid [symmetric] by blast
  have 5: "questionId other_vote \<noteq> ''q1''" using 1 s by simp
  have 6: "filter (\<lambda>v. questionId v = ''q2'')
      (fst (snd (delete_votes [stored_vote, other_vote] example_data ''q1''))) = [other_vote]"
    unfolding 2 by (simp add: stored_vote_def o)
  have 7: "events (snd (snd (delete_votes [stored_vote, other_vote] example_data ''q1''))) ''e1'' =
     Some (example_event\<lparr>clearedQuestionId := Some ''q1''\<rparr>)"
    unfolding 3 by simp
  have 8: "events (snd (post_clear_notification
       (snd (snd (delete_votes [stored_vote, other_vote] example_data ''q1''))) ''e1'')) ''e1'' =
     Some (example_event\<lparr>clearedQuestionId := None\<rparr>)"
    unfolding 4 by simp
  from s q e 5 6 7 8 show ?thesis by simp
qed




section \<open>Properties of the polling subscriptions\<close>

lemma tick_stopped:
  "\<not> intervalActive s \<Longrightarrow> tick s = s"
  by (simp add: tick_def)

lemma votes_step_stopped:
  assumes "\<not> isSubscribed s" and "\<not> intervalActive s"
  shows "calls (votes_step e s) = calls s \<and> \<not> isSubscribed (votes_step e s) \<and>
         \<not> intervalActive (votes_step e s) \<and> inFlight (votes_step e s) \<le> inFlight s"
proof (cases e)
  case Tick
  then show ?thesis using assms by (simp add: tick_stopped)
next
  case (Arrive r)
  then show ?thesis using assms
    by (cases r) (simp_all add: fetchVotes_arrive_def Let_def)
next
  case Unsubscribe
  then show ?thesis using assms by (simp add: unsubscribe_def)
qed

lemma question_step_stopped:
  assumes "\<not> isSubscribed s" and "\<not> intervalActive s"
  shows "calls (question_step e s) = calls s \<and> \<not> isSubscribed (question_step e s) \<and>
         \<not> intervalActive (question_step e s) \<and> inFlight (question_step e s) \<le> inFlight s"
proof (cases e)
  case Tick
  then show ?thesis using assms by (simp add: tick_stopped)
next
  case (Arrive r)
  then show ?thesis using assms
    by (cases r) (simp_all add: fetchCurrentQuestion_arrive_def Let_def)
next
  case Unsubscribe
  then show ?thesis using assms by (simp add: unsubscribe_def)
qed

lemma cleared_step_stopped:
  assumes "\<not> isSubscribed s" and "\<not> intervalActive s"
  shows "calls (cleared_step e s) = calls s \<and> acks (cleared_step e s) = acks s \<and>
         \<not> isSubscribed (cleared_step e s) \<and>
         \<not> intervalActive (cleared_step e s) \<and> inFlight (cleared_step e s) \<le> inFlight s"
proof (cases e)
  case Tick
  then show ?thesis using assms by (simp add: tick_stopped)
next
  case (Arrive r)
  then show ?thesis using assms
    by (cases r) (simp_all add: fetchCleared_arrive_def Let_def)
next
  case Unsubscribe
  then show ?thesis using assms by (simp add: unsubscribe_def)
qed

lemma votes_run_stopped:
  "\<not> isSubscribed s \<Longrightarrow> \<not> intervalActive s \<Longrightarrow>
   calls (fold votes_step evs s) = calls s \<and> \<not> isSubscribed (fold votes_step evs s) \<and>
   \<not> intervalActive (fold votes_step evs s) \<and> inFlight (fold votes_step evs s) \<le> inFlight s"
proof (induction evs arbitrary: s)
  case Nil
  then show ?case by simp
next
  case (Cons e evs)
  note st = votes_step_stopped [OF Cons.prems, of e]
  from st have a: "\<not> isSubscribed (votes_step e s)" and b: "\<not> intervalActive (votes_step e s)"
    by simp_all
  from Cons.IH [OF a b] st show ?case by simp
qed

lemma question_run_stopped:
  "\<not> isSubscribed s \<Longrightarrow> \<not> intervalActive s \<Longrightarrow>
   calls (fold question_step evs s) = calls s \<and> \<not> isSubscribed (fold question_step evs s) \<and>
   \<not> intervalActive (fold question_step evs s) \<and>
   inFlight (fold question_step evs s) \<le> inFlight s"
proof (induction evs arbitrary: s)
  case Nil
  then show ?case by simp
next
  case (Cons e evs)
  note st = question_step_stopped [OF Cons.prems, of e]
  from st have a: "\<not> isSubscribed (question_step e s)"
    and b: "\<not> intervalActive (question_step e s)"
    by simp_all
  from Cons.IH [OF a b] st show ?case by simp
qed

lemma cleared_run_stopped:
  "\<not> isSubscribed s \<Longrightarrow> \<not> intervalActive s \<Longrightarrow>
   calls (fold cleared_step evs s) = calls s \<and> acks (fold cleared_step evs s) = acks s \<and>
   \<not> isSubscribed (fold cleared_step evs s) \<and>
   \<not> intervalActive (fold cleared_step evs s) \<and>
   inFlight (fold cleared_step evs s) \<le> inFlight s"
proof (induction evs arbitrary: s)
  case Nil
  then show ?case by simp
next
  case (Cons e evs)
  note st = cleared_step_stopped [OF Cons.prems, of e]
  from st have a: "\<not> isSubscribed (cleared_step e s)"
    and b: "\<not> intervalActive (cleared_step e s)"
    by simp_all
  from Cons.IH [OF a b] st show ?case by simp
qed

lemma unsubscribe_fields:
  "\<not> isSubscribed (unsubscribe s)" "\<not> intervalActive (unsubscribe s)"
  "calls (unsubscribe s) = calls s" "inFlight (unsubscribe s) = inFlight s"
  by (simp_all add: unsubscribe_def)

text \<open>
  Claim C8. Calling the returned function sets the flag to false and cancels the
  interval. Whatever happens afterwards, in any order (answers to the fetches that were
  in flight, ticks, further calls of the function), the callback is not invoked
  again, the flag stays false, the interval stays cancelled and no fetch is issued;
  the clear-notification channel sends no acknowledgement either. This holds from
  every state of each of the three subscriptions.
\<close>

theorem unsubscribe_silences_callback:
  "calls (fold votes_step evs (unsubscribe sv)) = calls sv \<and>
   \<not> isSubscribed (fold votes_step evs (unsubscribe sv)) \<and>
   \<not> intervalActive (fold votes_step evs (unsubscribe sv)) \<and>
   inFlight (fold votes_step evs (unsubscribe sv)) \<le> inFlight sv \<and>
   calls (fold question_step evq (unsubscribe sq)) = calls sq \<and>
   \<not> isSubscribed (fold question_step evq (unsubscribe sq)) \<and>
   \<not> intervalActive (fold question_step evq (unsubscribe sq)) \<and>
   inFlight (fold question_step evq (unsubscribe sq)) \<le> inFlight sq \<and>
   calls (fold cleared_step evc (unsubscribe sc)) = calls sc \<and>
   acks (fold cleared_step evc (unsubscribe sc)) = acks sc \<and>
   \<not> isSubscribed (fold cleared_step evc (unsubscribe sc)) \<and>
   \<not> intervalActive (fold cleared_step evc (unsubscribe sc)) \<and>
   inFlight (fold cleared_step evc (unsubscribe sc)) \<le> inFlight sc"
proof -
  note v = votes_run_stopped [OF unsubscribe_fields(1,2), of evs sv]
  note q = question_run_stopped [OF unsubscribe_fields(1,2), of evq sq]
  note c = cleared_run_stopped [OF unsubscribe_fields(1,2), of evc sc]
  have a: "acks (unsubscribe sc) = acks sc" by (simp add: unsubscribe_def)
  from v q c a show ?thesis by (simp add: unsubscribe_fields)
qed

text \<open>
  C8 on a run: the subscription to the votes of a question has its first fetch in flight
  when it is cancelled; the answer arrives later, a tick and a second answer follow,
  and the callback has not been invoked.
\<close>

theorem unsubscribe_silences_callback_witness:
  "inFlight subscribeToVotes = 1 \<and>
   calls (fold votes_step [Arrive (Ok [stored_vote]), Tick, Arrive (Ok [])]
            (unsubscribe subscribeToVotes)) = [] \<and>
   calls (fold question_step [Arrive (Ok (Some ''q1''))]
            (unsubscribe subscribeToCurrentQuestion)) = [] \<and>
   calls (fold cleared_step [Arrive (Ok (Some ''q1''))]
            (unsubscribe subscribeToVoteCleared)) = []"
  using unsubscribe_silences_callback [of "[Arrive (Ok [stored_vote]), Tick, Arrive (Ok [])]"
      subscribeToVotes "[Arrive (Ok (Some ''q1''))]" subscribeToCurrentQuestion
      "[Arrive (Ok (Some ''q1''))]" subscribeToVoteCleared]
  by (simp add: subscribeToVotes_def subscribeToCurrentQuestion_def subscribeToVoteCleared_def)
















end
